theory Spec2Isabelle
  imports Complex_Main "HOL-Library.Word" "HOL-Library.While_Combinator" "HOL-Library.Multiset"
begin

section \<open>JavaScript strings\<close>

text \<open>
  A JavaScript string is a sequence of UTF-16 code units: \<open>length\<close> counts code units,
  \<open>slice\<close> cuts at code-unit offsets, and a regular expression without the \<open>u\<close> flag
  matches code unit by code unit. Texts and URLs are therefore lists of 16-bit words.
  Fixed ASCII texts are written as HOL string literals and converted with \<open>utf16\<close>.
\<close>

type_synonym js_char = "16 word"
type_synonym js_string = "js_char list"

definition utf16 :: "string \<Rightarrow> js_string" where
  "utf16 s = map of_char s"

text \<open>
  The class \<open>\s\<close> of a JavaScript regular expression, which is also what \<open>trim\<close> removes:
  the WhiteSpace and LineTerminator code points of ECMAScript (TAB, LF, VT, FF, CR, SPACE,
  NBSP, U+1680, U+2000 to U+200A, U+2028, U+2029, U+202F, U+205F, U+3000, U+FEFF).
\<close>

definition is_space :: "js_char \<Rightarrow> bool" where
  "is_space c \<longleftrightarrow>
     c = 0x9 \<or> c = 0xA \<or> c = 0xB \<or> c = 0xC \<or> c = 0xD \<or> c = 0x20 \<or> c = 0xA0 \<or>
     c = 0x1680 \<or> (0x2000 \<le> c \<and> c \<le> 0x200A) \<or> c = 0x2028 \<or> c = 0x2029 \<or>
     c = 0x202F \<or> c = 0x205F \<or> c = 0x3000 \<or> c = 0xFEFF"

text \<open>
  \<open>s.slice(a, b)\<close>: a negative argument counts from the end, both are clamped to
  \<open>[0, length]\<close>, and the result is empty when the clamped start is not below the clamped end.
\<close>

definition slice :: "'a list \<Rightarrow> int \<Rightarrow> int \<Rightarrow> 'a list" where
  "slice s a b =
     (let n = int (length s);
          lo = (if a < 0 then max (n + a) 0 else min a n);
          hi = (if b < 0 then max (n + b) 0 else min b n)
      in take (nat (hi - lo)) (drop (nat lo) s))"

text \<open>\<open>s.trim()\<close> removes the white space at both ends.\<close>

definition trim :: "js_string \<Rightarrow> js_string" where
  "trim s = rev (dropWhile is_space (rev (dropWhile is_space s)))"

section \<open>Text chunker (TextChunkerService)\<close>

record TextChunk =
  chunk_text :: js_string
  index :: int
  startChar :: int
  endChar :: int

definition chunkSize :: int where
  "chunkSize = 1000"

definition chunkOverlap :: int where
  "chunkOverlap = 200"

text \<open>
  \<open>/[.!?]\s+/.exec(s)\<close>: the leftmost position holding one of \<open>.\<close>, \<open>!\<close>, \<open>?\<close> followed by
  at least one white-space code unit; the greedy \<open>\s+\<close> then takes the whole run of white
  space. The result is the pair (\<open>index\<close>, length of the matched text), \<open>None\<close> for null.
  The second argument is the offset of the list's head in the searched string.
\<close>

definition is_sentence_punct :: "js_char \<Rightarrow> bool" where
  "is_sentence_punct c \<longleftrightarrow> c = 0x2E \<or> c = 0x21 \<or> c = 0x3F"

fun exec_sentenceEnd :: "js_string \<Rightarrow> nat \<Rightarrow> (nat \<times> nat) option" where
  "exec_sentenceEnd [] i = None"
| "exec_sentenceEnd (c # cs) i =
     (if is_sentence_punct c \<and> (case cs of [] \<Rightarrow> False | d # _ \<Rightarrow> is_space d)
      then Some (i, 1 + length (takeWhile is_space cs))
      else exec_sentenceEnd cs (i + 1))"

text \<open>\<open>/\n\n/.exec(s)\<close>: the leftmost position of two consecutive line feeds.\<close>

fun exec_paragraphEnd :: "js_string \<Rightarrow> nat \<Rightarrow> (nat \<times> nat) option" where
  "exec_paragraphEnd (c # d # cs) i =
     (if c = 0xA \<and> d = 0xA then Some (i, 2) else exec_paragraphEnd (d # cs) (i + 1))"
| "exec_paragraphEnd cs i = None"

definition findSentenceBoundary :: "js_string \<Rightarrow> int \<Rightarrow> int \<Rightarrow> int" where
  "findSentenceBoundary text start endc =
     (let searchStart = max start (endc - 200);
          searchText = slice text searchStart endc
      in case exec_sentenceEnd searchText 0 of
           Some (i, l) \<Rightarrow> searchStart + int i + int l
         | None \<Rightarrow>
             (case exec_paragraphEnd searchText 0 of
                Some (i, l) \<Rightarrow> searchStart + int i + int l
              | None \<Rightarrow> endc))"

text \<open>
  The state of the loop of \<open>chunkText\<close>: the local variables \<open>startChar\<close>, \<open>index\<close> and
  \<open>chunks\<close>. \<open>loop_body\<close> is one iteration; the overlap is a parameter of the model, which
  \<open>chunkText\<close> instantiates with the field \<open>chunkOverlap\<close>.
\<close>

type_synonym chunk_state = "int \<times> int \<times> TextChunk list"

definition loop_cond :: "js_string \<Rightarrow> chunk_state \<Rightarrow> bool" where
  "loop_cond text = (\<lambda>(start, idx, chunks). start < int (length text))"

definition loop_body :: "int \<Rightarrow> js_string \<Rightarrow> chunk_state \<Rightarrow> chunk_state" where
  "loop_body overlap text = (\<lambda>(start, idx, chunks).
     let endc = min (start + chunkSize) (int (length text));
         adjustedEnd = findSentenceBoundary text start endc
     in (max (adjustedEnd - overlap) (start + chunkSize),
         idx + 1,
         chunks @ [\<lparr>chunk_text = slice text start adjustedEnd, index = idx,
                    startChar = start, endChar = adjustedEnd\<rparr>]))"

function chunk_loop :: "int \<Rightarrow> js_string \<Rightarrow> chunk_state \<Rightarrow> chunk_state" where
  "chunk_loop overlap text st =
     (if loop_cond text st then chunk_loop overlap text (loop_body overlap text st) else st)"
  by pat_completeness auto
termination
proof (relation "measure (\<lambda>(overlap, text, st). nat (int (length text) - fst st))")
  show "wf (measure (\<lambda>(overlap, text, st). nat (int (length text) - fst st)))"
    by simp
next
  fix ov :: int and t :: js_string and st :: chunk_state
  assume "loop_cond t st"
  then have "fst st < int (length t)"
    by (cases st) (simp add: loop_cond_def)
  moreover have "fst st + 1000 \<le> fst (loop_body ov t st)"
    by (cases st) (simp add: loop_body_def Let_def chunkSize_def)
  ultimately show "((ov, t, loop_body ov t st), (ov, t, st))
      \<in> measure (\<lambda>(overlap, text, st). nat (int (length text) - fst st))"
    by simp
qed

declare chunk_loop.simps [simp del]

definition chunkText :: "js_string \<Rightarrow> TextChunk list" where
  "chunkText text = snd (snd (chunk_loop chunkOverlap text (0, 0, [])))"

text \<open>
  The snapping rule in the words of the specification, for comparison with
  \<open>findSentenceBoundary\<close>: the end of the last match of \<open>[.!?]\s+\<close> in the window of the
  last 200 characters, that is the sentence boundary nearest to the tentative end; failing
  that the end of the last \<open>\n\n\<close> there; failing that the tentative end.
  \<open>all_sentenceEnds\<close> and \<open>all_paragraphEnds\<close> list the end offsets of all matches, in
  increasing order of their start.
\<close>

fun all_sentenceEnds :: "js_string \<Rightarrow> nat \<Rightarrow> nat list" where
  "all_sentenceEnds [] i = []"
| "all_sentenceEnds (c # cs) i =
     (if is_sentence_punct c \<and> (case cs of [] \<Rightarrow> False | d # _ \<Rightarrow> is_space d)
      then (i + 1 + length (takeWhile is_space cs)) # all_sentenceEnds cs (i + 1)
      else all_sentenceEnds cs (i + 1))"

fun all_paragraphEnds :: "js_string \<Rightarrow> nat \<Rightarrow> nat list" where
  "all_paragraphEnds (c # d # cs) i =
     (if c = 0xA \<and> d = 0xA then (i + 2) # all_paragraphEnds (d # cs) (i + 1)
      else all_paragraphEnds (d # cs) (i + 1))"
| "all_paragraphEnds cs i = []"

definition nearest_boundary_spec :: "js_string \<Rightarrow> int \<Rightarrow> int \<Rightarrow> int" where
  "nearest_boundary_spec text start endc =
     (let searchStart = max start (endc - 200);
          searchText = slice text searchStart endc
      in if all_sentenceEnds searchText 0 \<noteq> []
         then searchStart + int (last (all_sentenceEnds searchText 0))
         else if all_paragraphEnds searchText 0 \<noteq> []
         then searchStart + int (last (all_paragraphEnds searchText 0))
         else endc)"

section \<open>Errors\<close>

text \<open>
  A thrown value is either a plain \<open>Error\<close> or a Nest \<open>HttpException\<close> with its status;
  both carry a message. A function that may throw returns \<open>error + 'a\<close>.
\<close>

datatype http_status = BAD_REQUEST | NOT_FOUND | INTERNAL_SERVER_ERROR

datatype error = Error string | HttpException string http_status

fun message :: "error \<Rightarrow> string" where
  "message (Error m) = m"
| "message (HttpException m s) = m"

fun is_HttpException :: "error \<Rightarrow> bool" where
  "is_HttpException (HttpException m s) = True"
| "is_HttpException (Error m) = False"

text \<open>\<open>xs.map(f)\<close> for an \<open>f\<close> that may throw: the first throw, in order, ends the map.\<close>

fun map_result :: "('a \<Rightarrow> error + 'b) \<Rightarrow> 'a list \<Rightarrow> error + 'b list" where
  "map_result f [] = Inr []"
| "map_result f (x # xs) =
     (case f x of
        Inl e \<Rightarrow> Inl e
      | Inr y \<Rightarrow> (case map_result f xs of Inl e \<Rightarrow> Inl e | Inr ys \<Rightarrow> Inr (y # ys)))"

text \<open>\<open>xs.join(sep)\<close> on an array of strings.\<close>

fun join :: "'a list \<Rightarrow> 'a list list \<Rightarrow> 'a list" where
  "join sep [] = []"
| "join sep [x] = x"
| "join sep (x # y # ys) = x @ sep @ join sep (y # ys)"

section \<open>JavaScript numbers\<close>

text \<open>
  A JavaScript number is an IEEE 754 binary64 value: a finite value, an infinity or NaN.
  \<open>Finite s m e\<close> stands for the value \<open>(-1)\<^sup>s * m * 2\<^sup>e\<close>, with a mantissa \<open>m\<close> that is
  not negative; the mantissa 0 is zero, with either sign. The operations return normalised values: \<open>m < 2\<^sup>5\<^sup>3\<close> and
  \<open>-1074 \<le> e \<le> 971\<close>, with \<open>m \<ge> 2\<^sup>5\<^sup>2\<close> unless \<open>e = -1074\<close> (a subnormal value), and
  zero as \<open>Finite s 0 0\<close>.
\<close>

datatype double = Finite bool int int | Infinity bool | NaN

text \<open>The number of bits of a mantissa.\<close>

function bitlen :: "int \<Rightarrow> nat" where
  "bitlen n = (if n \<le> 0 then 0 else Suc (bitlen (n div 2)))"
  by pat_completeness auto
termination
  by (relation "measure nat") auto

declare bitlen.simps [simp del]

text \<open>
  The rounding of every operation: the binary64 value nearest to the exact value
  \<open>(-1)\<^sup>s * m * 2\<^sup>e\<close>, the one with the even mantissa when two are equally near; an
  infinity when that value is beyond the largest finite one, zero when it rounds to zero.
\<close>

definition round_nearest :: "bool \<Rightarrow> int \<Rightarrow> int \<Rightarrow> double" where
  "round_nearest s m e =
     (if m \<le> 0 then Finite s 0 0
      else
        let e1 = max (e + int (bitlen m) - 53) (- 1074);
            q = (if e1 \<le> e then m * 2 ^ nat (e - e1)
                 else
                   let sh = nat (e1 - e);
                       q0 = m div 2 ^ sh;
                       r = m mod 2 ^ sh;
                       half = 2 ^ (sh - 1)
                   in if r > half \<or> (r = half \<and> odd q0) then q0 + 1 else q0);
            e2 = (if q = 2 ^ 53 then e1 + 1 else e1);
            q2 = (if q = 2 ^ 53 then 2 ^ 52 else q)
        in if q2 = 0 then Finite s 0 0
           else if e2 > 971 then Infinity s
           else Finite s q2 e2)"

text \<open>The number literal \<open>0\<close>, and an integer literal in general.\<close>

definition d_zero :: double where
  "d_zero = Finite False 0 0"

definition d_int :: "int \<Rightarrow> double" where
  "d_int i = round_nearest (i < 0) \<bar>i\<bar> 0"

text \<open>\<open>x === 0\<close>, \<open>x > 0\<close> and \<open>x < 0\<close>: both zeros are equal to 0, NaN compares with nothing.\<close>

fun is_zero :: "double \<Rightarrow> bool" where
  "is_zero (Finite s m e) \<longleftrightarrow> m = 0"
| "is_zero (Infinity s) \<longleftrightarrow> False"
| "is_zero NaN \<longleftrightarrow> False"

fun is_pos :: "double \<Rightarrow> bool" where
  "is_pos (Finite s m e) \<longleftrightarrow> \<not> s \<and> m \<noteq> 0"
| "is_pos (Infinity s) \<longleftrightarrow> \<not> s"
| "is_pos NaN \<longleftrightarrow> False"

fun is_neg :: "double \<Rightarrow> bool" where
  "is_neg (Finite s m e) \<longleftrightarrow> s \<and> m \<noteq> 0"
| "is_neg (Infinity s) \<longleftrightarrow> s"
| "is_neg NaN \<longleftrightarrow> False"

fun d_neg :: "double \<Rightarrow> double" where
  "d_neg (Finite s m e) = Finite (\<not> s) m e"
| "d_neg (Infinity s) = Infinity (\<not> s)"
| "d_neg NaN = NaN"

text \<open>
  \<open>x + y\<close>: the exact sum, rounded. Infinities of opposite signs give NaN; an exact sum
  of zero is \<open>+0\<close>, unless both operands are \<open>-0\<close>.
\<close>

fun d_add :: "double \<Rightarrow> double \<Rightarrow> double" where
  "d_add NaN y = NaN"
| "d_add x NaN = NaN"
| "d_add (Infinity s) (Infinity t) = (if s = t then Infinity s else NaN)"
| "d_add (Infinity s) (Finite t m e) = Infinity s"
| "d_add (Finite s m e) (Infinity t) = Infinity t"
| "d_add (Finite s1 m1 e1) (Finite s2 m2 e2) =
     (let e = min e1 e2;
          a = m1 * 2 ^ nat (e1 - e);
          b = m2 * 2 ^ nat (e2 - e)
      in if s1 = s2 then round_nearest s1 (a + b) e
         else if a > b then round_nearest s1 (a - b) e
         else if b > a then round_nearest s2 (b - a) e
         else Finite False 0 0)"

definition d_sub :: "double \<Rightarrow> double \<Rightarrow> double" where
  "d_sub x y = d_add x (d_neg y)"

text \<open>\<open>x * y\<close>: the exact product, rounded. Zero times an infinity gives NaN.\<close>

fun d_mul :: "double \<Rightarrow> double \<Rightarrow> double" where
  "d_mul NaN y = NaN"
| "d_mul x NaN = NaN"
| "d_mul (Infinity s) (Infinity t) = Infinity (s \<noteq> t)"
| "d_mul (Infinity s) (Finite t m e) = (if m = 0 then NaN else Infinity (s \<noteq> t))"
| "d_mul (Finite s m e) (Infinity t) = (if m = 0 then NaN else Infinity (s \<noteq> t))"
| "d_mul (Finite s1 m1 e1) (Finite s2 m2 e2) = round_nearest (s1 \<noteq> s2) (m1 * m2) (e1 + e2)"

text \<open>
  \<open>x / y\<close>: the exact quotient, rounded. The quotient of the mantissas is taken with 110
  more bits, and a last bit that records a remainder; that bit is far below the place of
  rounding, where it tells an exact quotient from an inexact one. Zero by zero and
  infinity by infinity give NaN; another division by zero gives an infinity.
\<close>

fun d_div :: "double \<Rightarrow> double \<Rightarrow> double" where
  "d_div NaN y = NaN"
| "d_div x NaN = NaN"
| "d_div (Infinity s) (Infinity t) = NaN"
| "d_div (Infinity s) (Finite t m e) = Infinity (s \<noteq> t)"
| "d_div (Finite s m e) (Infinity t) = Finite (s \<noteq> t) 0 0"
| "d_div (Finite s1 m1 e1) (Finite s2 m2 e2) =
     (if m2 = 0 then (if m1 = 0 then NaN else Infinity (s1 \<noteq> s2))
      else
        let n = m1 * 2 ^ 110;
            q = n div m2;
            r = n mod m2
        in round_nearest (s1 \<noteq> s2) (2 * q + (if r = 0 then 0 else 1)) (e1 - e2 - 111))"

text \<open>The integer square root, rounded down.\<close>

function isqrt :: "int \<Rightarrow> int" where
  "isqrt n =
     (if n < 2 then n
      else let r = 2 * isqrt (n div 4) in if (r + 1) * (r + 1) \<le> n then r + 1 else r)"
  by pat_completeness auto
termination
  by (relation "measure nat") auto

declare isqrt.simps [simp del]

text \<open>
  \<open>Math.sqrt(x)\<close>: the exact square root, rounded. The mantissa is scaled by an even power
  of two to at least 110 bits, its integer square root is taken, and a last bit records
  a remainder, as in the division. The square root of a negative number is NaN, that of
  a zero is the same zero.
\<close>

fun d_sqrt :: "double \<Rightarrow> double" where
  "d_sqrt NaN = NaN"
| "d_sqrt (Infinity s) = (if s then NaN else Infinity s)"
| "d_sqrt (Finite s m e) =
     (if m = 0 then Finite s m e
      else if s then NaN
      else
        let k = 110 + e mod 2;
            n = m * 2 ^ nat k;
            r = isqrt n
        in round_nearest False (2 * r + (if r * r = n then 0 else 1)) ((e - k) div 2 - 1))"

text \<open>The value of a finite number, as a real number.\<close>

fun is_finite :: "double \<Rightarrow> bool" where
  "is_finite (Finite s m e) \<longleftrightarrow> True"
| "is_finite (Infinity s) \<longleftrightarrow> False"
| "is_finite NaN \<longleftrightarrow> False"

fun d_value :: "double \<Rightarrow> real" where
  "d_value (Finite s m e) =
     (if s then - 1 else 1)
     * (if 0 \<le> e then real_of_int m * 2 ^ nat e else real_of_int m / 2 ^ nat (- e))"
| "d_value (Infinity s) = 0"
| "d_value NaN = 0"

text \<open>
  The values of the type that are binary64 values in normal form: zero, a subnormal
  value, a normal value, an infinity or NaN. Number literals and the results of the
  operations are of this form.
\<close>

definition is_double :: "double \<Rightarrow> bool" where
  "is_double x =
     (case x of
        Finite s m e \<Rightarrow>
          (m = 0 \<and> e = 0) \<or> (0 < m \<and> m < 2 ^ 52 \<and> e = - 1074)
          \<or> (2 ^ 52 \<le> m \<and> m < 2 ^ 53 \<and> - 1074 \<le> e \<and> e \<le> 971)
      | Infinity s \<Rightarrow> True
      | NaN \<Rightarrow> True)"

section \<open>In-memory vector database (VectorDbService)\<close>

text \<open>
  The metadata of a document is the object that \<open>initializeRag\<close> stores; \<open>source\<close> is
  \<open>None\<close> when \<open>urls[0]\<close> is undefined.
\<close>

record Metadata =
  md_index :: int
  md_startChar :: int
  md_endChar :: int
  source :: "js_string option"
  baseUrls :: "js_string list"

record Document =
  doc_id :: js_string
  doc_text :: js_string
  embedding :: "double list"
  metadata :: "Metadata option"

text \<open>
  The loop of \<open>cosineSimilarity\<close> runs \<open>i\<close> over \<open>0..<vecA.length\<close> and reads both vectors
  at \<open>i\<close>; it is reached only when the lengths agree, so both reads are in range. Every
  operation is the binary64 one.
\<close>

definition cosineSimilarity :: "double list \<Rightarrow> double list \<Rightarrow> error + double" where
  "cosineSimilarity vecA vecB =
     (if length vecA \<noteq> length vecB then Inl (Error ''Vectors must have the same length'')
      else
        let (dotProduct, normA, normB) =
              fold (\<lambda>i (dotProduct, normA, normB).
                      (d_add dotProduct (d_mul (vecA ! i) (vecB ! i)),
                       d_add normA (d_mul (vecA ! i) (vecA ! i)),
                       d_add normB (d_mul (vecB ! i) (vecB ! i))))
                   [0..<length vecA] (d_zero, d_zero, d_zero);
            normA = d_sqrt normA;
            normB = d_sqrt normB
        in if is_zero normA \<or> is_zero normB then Inr d_zero
           else Inr (d_div dotProduct (d_mul normA normB)))"

text \<open>
  \<open>Array.prototype.sort(cmp)\<close> is a stable sort: \<open>a\<close> is placed before \<open>b\<close> when
  \<open>cmp(a, b) < 0\<close>, after it when \<open>cmp(a, b) > 0\<close>, and elements that compare equal (also
  when \<open>cmp\<close> gives NaN) keep their order. For a consistent comparator that result is
  unique; it is computed here by insertion from the right, each element going in front of
  the first one it does not have to follow. For a comparator that is not consistent the
  order is left to the implementation, and this is one of the orders allowed.
\<close>

fun insert_sorted :: "('a \<Rightarrow> 'a \<Rightarrow> double) \<Rightarrow> 'a \<Rightarrow> 'a list \<Rightarrow> 'a list" where
  "insert_sorted cmp x [] = [x]"
| "insert_sorted cmp x (y # ys) =
     (if \<not> is_pos (cmp x y) then x # y # ys else y # insert_sorted cmp x ys)"

definition array_sort :: "('a \<Rightarrow> 'a \<Rightarrow> double) \<Rightarrow> 'a list \<Rightarrow> 'a list" where
  "array_sort cmp xs = foldr (insert_sorted cmp) xs []"

definition addDocuments :: "Document list \<Rightarrow> Document list \<Rightarrow> Document list" where
  "addDocuments stored documents = stored @ documents"

definition clearCollection :: "Document list \<Rightarrow> Document list" where
  "clearCollection stored = []"

text \<open>
  \<open>searchSimilar\<close> reads the stored documents (first argument). A throw of
  \<open>cosineSimilarity\<close> is logged and thrown again.
\<close>

definition searchSimilar :: "Document list \<Rightarrow> double list \<Rightarrow> int \<Rightarrow> error + Document list" where
  "searchSimilar documents queryEmbedding topK =
     (if length documents = 0 then Inr []
      else
        case map_result
               (\<lambda>doc. case cosineSimilarity queryEmbedding (embedding doc) of
                         Inl e \<Rightarrow> Inl e
                       | Inr similarity \<Rightarrow> Inr (doc, similarity))
               documents of
          Inl e \<Rightarrow> Inl e
        | Inr similarities \<Rightarrow>
            Inr (map fst
                   (slice (array_sort (\<lambda>a b. d_sub (snd b) (snd a)) similarities) 0 topK)))"




text \<open>
  The dot product, the Euclidean norm and the cosine similarity of the specification:
  the dot product divided by the product of the two norms, over the real numbers that
  the components stand for, with no rounding.
\<close>

definition exact_dot :: "double list \<Rightarrow> double list \<Rightarrow> real" where
  "exact_dot a b = sum_list (map2 (\<lambda>x y. d_value x * d_value y) a b)"

definition exact_norm :: "double list \<Rightarrow> real" where
  "exact_norm a = sqrt (sum_list (map (\<lambda>x. d_value x * d_value x) a))"

definition exact_cosine :: "double list \<Rightarrow> double list \<Rightarrow> real" where
  "exact_cosine a b = exact_dot a b / (exact_norm a * exact_norm b)"

section \<open>Web crawler (WebScraperService)\<close>

text \<open>
  The network and the libraries on it are parameters of the model. \<open>url_origin\<close> is
  \<open>new URL(u).origin\<close>, which throws on an invalid URL. \<open>scrapeSinglePage\<close> is the HTTP GET
  of a page, followed by the extraction and cleaning of its text; \<open>page_links\<close> is the HTTP
  GET of \<open>extractLinks\<close> with its selection of links, giving the array \<open>links\<close> before
  duplicates are removed. Both take the number of the loop iteration that calls them, so
  that a page may answer differently each time it is requested.
\<close>

record crawl_env =
  url_origin :: "js_string \<Rightarrow> error + js_string"
  scrapeSinglePage :: "nat \<Rightarrow> js_string \<Rightarrow> error + js_string"
  page_links :: "nat \<Rightarrow> js_string \<Rightarrow> error + js_string list"

text \<open>
  The requests sent, in order: \<open>ScrapePage u ok\<close> is the request of \<open>scrapeSinglePage\<close>
  for \<open>u\<close> and whether it returned, \<open>ExtractLinks u\<close> is the request of \<open>extractLinks\<close>.
\<close>

datatype fetch_event = ScrapePage js_string bool | ExtractLinks js_string

fun event_url :: "fetch_event \<Rightarrow> js_string" where
  "event_url (ScrapePage u ok) = u"
| "event_url (ExtractLinks u) = u"

text \<open>
  The variables of the loop of \<open>scrapeWebsite\<close>. \<open>visitedUrls\<close> is a JavaScript \<open>Set\<close>,
  kept as the list of its elements in insertion order. \<open>iteration\<close> and \<open>fetch_log\<close> are
  not in the source: they count the iterations and record the requests.
\<close>

record crawl_state =
  urlsToVisit :: "js_string list"
  visitedUrls :: "js_string list"
  allContent :: "js_string list"
  iteration :: nat
  fetch_log :: "fetch_event list"

definition maxPages :: nat where
  "maxPages = 50"

definition set_add :: "'a list \<Rightarrow> 'a \<Rightarrow> 'a list" where
  "set_add s x = (if x \<in> set s then s else s @ [x])"

text \<open>\<open>[...new Set(links)]\<close>: the first occurrence of each element, in order.\<close>

definition unique_links :: "'a list \<Rightarrow> 'a list" where
  "unique_links links = fold (\<lambda>x s. set_add s x) links []"

definition extractLinks :: "crawl_env \<Rightarrow> nat \<Rightarrow> js_string \<Rightarrow> js_string list" where
  "extractLinks env n url =
     (case page_links env n url of Inl e \<Rightarrow> [] | Inr links \<Rightarrow> unique_links links)"

text \<open>The \<open>for\<close> loop that adds the new links to the queue.\<close>

definition enqueue_links :: "js_string list \<Rightarrow> js_string list \<Rightarrow> js_string list \<Rightarrow> js_string list" where
  "enqueue_links visited queue links =
     fold (\<lambda>link q. if link \<notin> set visited \<and> link \<notin> set q then q @ [link] else q) links queue"

definition page_marker :: "js_string \<Rightarrow> js_string \<Rightarrow> js_string" where
  "page_marker url pageContent =
     [0xA, 0xA] @ utf16 ''=== Page: '' @ url @ utf16 '' ==='' @ [0xA, 0xA] @ pageContent"

definition crawl_cond :: "crawl_state \<Rightarrow> bool" where
  "crawl_cond st \<longleftrightarrow> length (urlsToVisit st) > 0 \<and> length (visitedUrls st) < maxPages"

definition crawl_body :: "crawl_env \<Rightarrow> crawl_state \<Rightarrow> crawl_state" where
  "crawl_body env st =
     (case urlsToVisit st of
        [] \<Rightarrow> st
      | currentUrl # rest \<Rightarrow>
          let st1 = st\<lparr>urlsToVisit := rest, iteration := iteration st + 1\<rparr>
          in if currentUrl \<in> set (visitedUrls st) then st1
             else
               case scrapeSinglePage env (iteration st) currentUrl of
                 Inl e \<Rightarrow> st1\<lparr>fetch_log := fetch_log st @ [ScrapePage currentUrl False]\<rparr>
               | Inr pageContent \<Rightarrow>
                   let links = extractLinks env (iteration st) currentUrl
                   in st1\<lparr>allContent :=
                            (if length (trim pageContent) > 0
                             then allContent st @ [page_marker currentUrl pageContent]
                             else allContent st),
                          urlsToVisit := enqueue_links (visitedUrls st) rest links,
                          visitedUrls := set_add (visitedUrls st) currentUrl,
                          fetch_log := fetch_log st
                             @ [ScrapePage currentUrl True, ExtractLinks currentUrl]\<rparr>)"

function crawl_loop :: "crawl_env \<Rightarrow> crawl_state \<Rightarrow> crawl_state" where
  "crawl_loop env st = (if crawl_cond st then crawl_loop env (crawl_body env st) else st)"
  by pat_completeness auto
termination
proof (relation "measures [\<lambda>(env, st). maxPages - length (visitedUrls st),
                           \<lambda>(env, st). length (urlsToVisit st)]")
  show "wf (measures [\<lambda>(env, st). maxPages - length (visitedUrls st),
                      \<lambda>(env, st). length (urlsToVisit st)])"
    by simp
next
  fix env :: crawl_env and st :: crawl_state
  assume c: "crawl_cond st"
  then obtain u rest where q: "urlsToVisit st = u # rest"
    by (cases "urlsToVisit st") (auto simp: crawl_cond_def)
  from c have lt: "length (visitedUrls st) < maxPages"
    by (simp add: crawl_cond_def)
  show "((env, crawl_body env st), (env, st))
      \<in> measures [\<lambda>(env, st). maxPages - length (visitedUrls st),
                   \<lambda>(env, st). length (urlsToVisit st)]"
    using q lt
    by (auto simp: crawl_body_def Let_def set_add_def split: sum.splits)
qed

declare crawl_loop.simps [simp del]

definition crawl_init :: "js_string \<Rightarrow> crawl_state" where
  "crawl_init baseUrl =
     \<lparr>urlsToVisit = [baseUrl], visitedUrls = [], allContent = [], iteration = 0, fetch_log = []\<rparr>"

text \<open>\<open>scrapeWebsite\<close> returns its result together with the requests it sent.\<close>

definition scrapeWebsite :: "crawl_env \<Rightarrow> js_string \<Rightarrow> (error + js_string) \<times> fetch_event list" where
  "scrapeWebsite env baseUrl =
     (case url_origin env baseUrl of
        Inl e \<Rightarrow>
          (Inl (if is_HttpException e then e
                else HttpException (''Failed to scrape website: '' @ message e)
                       INTERNAL_SERVER_ERROR), [])
      | Inr origin \<Rightarrow>
          let st = crawl_loop env (crawl_init baseUrl);
              combinedContent = join [0xA, 0xA] (allContent st)
          in if length (trim combinedContent) = 0
             then (Inl (HttpException ''No content found on any pages'' BAD_REQUEST),
                   fetch_log st)
             else (Inr combinedContent, fetch_log st))"

section \<open>Embedding client (EmbeddingService)\<close>

text \<open>
  The remote services are parameters of the model. \<open>crawler k\<close> is the network as the
  crawl of the \<open>k\<close>-th seed sees it. \<open>embedContent k t\<close> is the embedding request for the
  text \<open>t\<close>, the \<open>k\<close>-th of its call: it throws, or answers with something that is not an
  array (\<open>None\<close>), or with a vector. \<open>date_now k\<close> is \<open>Date.now()\<close> when the \<open>k\<close>-th
  document is built. \<open>chat_completion\<close> is the completion request, answering with the
  content of the first choice when there is one.
\<close>

record rag_env =
  crawler :: "nat \<Rightarrow> crawl_env"
  embedContent :: "nat \<Rightarrow> js_string \<Rightarrow> error + double list option"
  date_now :: "nat \<Rightarrow> nat"
  chat_completion :: "js_string \<Rightarrow> error + js_string option"

definition generateEmbedding :: "rag_env \<Rightarrow> nat \<Rightarrow> js_string \<Rightarrow> error + double list" where
  "generateEmbedding env k t =
     (case embedContent env k t of
        Inl e \<Rightarrow>
          Inl (HttpException (''Failed to generate embedding: '' @ message e)
                 INTERNAL_SERVER_ERROR)
      | Inr None \<Rightarrow>
          Inl (HttpException
                 (''Failed to generate embedding: '' @ ''Invalid embedding response from Gemini'')
                 INTERNAL_SERVER_ERROR)
      | Inr (Some v) \<Rightarrow> Inr v)"

text \<open>
  \<open>generateEmbeddings\<close> sends the texts in batches of ten and fails when one request
  fails; the vectors come back in the order of the texts. The model keeps the order and
  the failure, and reports the failure of the first failing text.
\<close>

definition generateEmbeddings :: "rag_env \<Rightarrow> js_string list \<Rightarrow> error + double list list" where
  "generateEmbeddings env texts =
     map_result (\<lambda>(k, t). generateEmbedding env k t) (zip [0..<length texts] texts)"

section \<open>Orchestrator (RagService)\<close>

record rag_state =
  websiteUrl :: "js_string option"
  isInitialized :: bool
  documents :: "Document list"

text \<open>\<open>s.includes(sub)\<close>.\<close>

fun js_includes :: "'a list \<Rightarrow> 'a list \<Rightarrow> bool" where
  "js_includes [] sub \<longleftrightarrow> sub = []"
| "js_includes (c # cs) sub \<longleftrightarrow> take (length sub) (c # cs) = sub \<or> js_includes cs sub"

definition strip_prefix :: "'a list \<Rightarrow> 'a list \<Rightarrow> 'a list option" where
  "strip_prefix p s = (if take (length p) s = p then Some (drop (length p) s) else None)"

definition page_or_website :: "js_string \<Rightarrow> js_string option" where
  "page_or_website s =
     (case strip_prefix (utf16 ''Page'') s of
        Some r \<Rightarrow> Some r
      | None \<Rightarrow> strip_prefix (utf16 ''Website'') s)"

text \<open>
  \<open>/=== (?:Page|Website): (https?:\/\/[^\s]+) ===/\<close> matched at the head of a string; the
  result is the text of group 1. \<open>[^\s]+\<close> must take the whole run of characters that are
  not white space, since a space has to follow it.
\<close>

definition marker_url_at :: "js_string \<Rightarrow> js_string option" where
  "marker_url_at s =
     (case strip_prefix (utf16 ''=== '') s of
        None \<Rightarrow> None
      | Some s1 \<Rightarrow>
     (case page_or_website s1 of
        None \<Rightarrow> None
      | Some s2 \<Rightarrow>
     (case strip_prefix (utf16 '': http'') s2 of
        None \<Rightarrow> None
      | Some s3 \<Rightarrow>
     (let (scheme, s4) =
            (case strip_prefix (utf16 ''s'') s3 of
               Some r \<Rightarrow> (utf16 ''https'', r)
             | None \<Rightarrow> (utf16 ''http'', s3))
      in case strip_prefix (utf16 ''://'') s4 of
           None \<Rightarrow> None
         | Some s5 \<Rightarrow>
             let run = takeWhile (\<lambda>c. \<not> is_space c) s5
             in if run \<noteq> [] \<and>
                   strip_prefix (utf16 '' ==='') (dropWhile (\<lambda>c. \<not> is_space c) s5) \<noteq> None
                then Some (scheme @ utf16 ''://'' @ run)
                else None))))"

text \<open>\<open>s.match(...)\<close> with that expression: the leftmost match.\<close>

fun match_marker_url :: "js_string \<Rightarrow> js_string option" where
  "match_marker_url [] = None"
| "match_marker_url (c # cs) =
     (case marker_url_at (c # cs) of Some u \<Rightarrow> Some u | None \<Rightarrow> match_marker_url cs)"

text \<open>
  \<open>/=== (?:Page|Website): [^\n]+ ===\n\n/\<close> matched at the head of a string; the result is
  the length of the match. \<open>[^\n]+\<close> runs to the end of the line, and the line has to end
  with \<open> ===\<close> after at least one more character and be followed by an empty line.
\<close>

definition marker_line_at :: "js_string \<Rightarrow> nat option" where
  "marker_line_at s =
     (case strip_prefix (utf16 ''=== '') s of
        None \<Rightarrow> None
      | Some s1 \<Rightarrow>
     (case page_or_website s1 of
        None \<Rightarrow> None
      | Some s2 \<Rightarrow>
     (case strip_prefix (utf16 '': '') s2 of
        None \<Rightarrow> None
      | Some s3 \<Rightarrow>
          let line = takeWhile (\<lambda>c. c \<noteq> 0xA) s3;
              rest = dropWhile (\<lambda>c. c \<noteq> 0xA) s3
          in if length line > 4 \<and> drop (length line - 4) line = utf16 '' ===''
                \<and> take 2 rest = [0xA, 0xA]
             then Some (length s - length rest + 2)
             else None)))"

text \<open>
  \<open>s.replace(/.../g, '')\<close>: every match, from left to right, is removed. The first
  argument is the number of characters of the current match still to be dropped.
\<close>

fun remove_markers :: "nat \<Rightarrow> js_string \<Rightarrow> js_string" where
  "remove_markers k [] = []"
| "remove_markers (Suc k) (c # cs) = remove_markers k cs"
| "remove_markers 0 (c # cs) =
     (case marker_line_at (c # cs) of
        Some m \<Rightarrow> remove_markers (m - 1) cs
      | None \<Rightarrow> c # remove_markers 0 cs)"

text \<open>The decimal digits of a number, as in a template string.\<close>

fun digits :: "nat \<Rightarrow> js_string" where
  "digits n =
     (if n < 10 then [of_nat (48 + n)] else digits (n div 10) @ [of_nat (48 + n mod 10)])"

definition website_marker :: "js_string \<Rightarrow> js_string \<Rightarrow> js_string" where
  "website_marker url content =
     [0xA, 0xA] @ utf16 ''=== Website: '' @ url @ utf16 '' ==='' @ [0xA, 0xA] @ content"

text \<open>
  The loop over the seeds: a seed whose crawl throws is skipped. The crawl of the \<open>k\<close>-th
  seed is \<open>scrapeWebsite\<close> on the network \<open>crawler env k\<close>.
\<close>

definition scrape_all :: "rag_env \<Rightarrow> js_string list \<Rightarrow> js_string list" where
  "scrape_all env urls =
     concat (map (\<lambda>(k, url).
                    case fst (scrapeWebsite (crawler env k) url) of
                      Inl e \<Rightarrow> []
                    | Inr content \<Rightarrow> [website_marker url content])
                 (zip [0..<length urls] urls))"

definition first_url :: "js_string list \<Rightarrow> js_string option" where
  "first_url urls = (case urls of [] \<Rightarrow> None | u # us \<Rightarrow> Some u)"

text \<open>
  The callback of \<open>chunks.map\<close> that builds a document. \<open>embeddings\<close> has one vector for
  each chunk, since \<open>generateEmbeddings\<close> returned, so \<open>embeddings[index]\<close> is in range.
\<close>

definition make_document ::
    "rag_env \<Rightarrow> js_string list \<Rightarrow> double list list \<Rightarrow> TextChunk \<Rightarrow> nat \<Rightarrow> Document" where
  "make_document env urls embeddings chunk idx =
     (let sourceUrl =
            (if js_includes (chunk_text chunk) (utf16 ''=== Page:'')
                \<or> js_includes (chunk_text chunk) (utf16 ''=== Website:'')
             then (case match_marker_url (chunk_text chunk) of
                     Some u \<Rightarrow> Some u
                   | None \<Rightarrow> first_url urls)
             else first_url urls)
      in \<lparr>doc_id = utf16 ''chunk_'' @ digits idx @ utf16 ''_'' @ digits (date_now env idx),
          doc_text = remove_markers 0 (chunk_text chunk),
          embedding = embeddings ! idx,
          metadata = Some \<lparr>md_index = index chunk, md_startChar = startChar chunk,
                            md_endChar = endChar chunk, source = sourceUrl,
                            baseUrls = urls\<rparr>\<rparr>)"

text \<open>
  Whatever is thrown inside \<open>initializeRag\<close> is caught at its end and thrown again as an
  internal server error.
\<close>

definition init_failure :: "error \<Rightarrow> error" where
  "init_failure e =
     HttpException (''Failed to initialize RAG: '' @ message e) INTERNAL_SERVER_ERROR"

definition initializeRag ::
    "rag_env \<Rightarrow> rag_state \<Rightarrow> js_string list \<Rightarrow> (error + unit) \<times> rag_state" where
  "initializeRag env st urls =
     (let st1 = st\<lparr>websiteUrl := first_url urls\<rparr>;
          allContent = scrape_all env urls
      in if length allContent = 0
         then (Inl (init_failure
                      (HttpException ''No content scraped from any website'' BAD_REQUEST)), st1)
         else
           let combinedContent = join [0xA, 0xA] allContent;
               chunks = chunkText combinedContent
           in if length chunks = 0
              then (Inl (init_failure
                           (HttpException ''No content chunks created from websites''
                              BAD_REQUEST)), st1)
              else
                case generateEmbeddings env (map chunk_text chunks) of
                  Inl e \<Rightarrow> (Inl (init_failure e), st1)
                | Inr embeddings \<Rightarrow>
                    let docs = map (\<lambda>(chunk, idx). make_document env urls embeddings chunk idx)
                                 (zip chunks [0..<length chunks])
                    in (Inr (),
                        st1\<lparr>documents := addDocuments (clearCollection (documents st1)) docs,
                            isInitialized := True\<rparr>))"

text \<open>
  \<open>query\<close> returns its result together with the calls it made to the embedder, the vector
  database and the answer generator, in order.
\<close>

datatype rag_call = EmbedCall js_string | SearchCall "double list" | CompletionCall js_string

definition state_error :: error where
  "state_error =
     HttpException
       (''RAG system not initialized. Please initialize with a website URL first via ''
        @ ''/rag/initialize endpoint or set RAG_WEBSITE_URL environment variable.'')
       BAD_REQUEST"

definition query_failure :: "error \<Rightarrow> error" where
  "query_failure e =
     (if is_HttpException e then e
      else HttpException (''An error occurred while processing your query: '' @ message e)
             INTERNAL_SERVER_ERROR)"

definition build_prompt :: "js_string \<Rightarrow> js_string \<Rightarrow> js_string" where
  "build_prompt context q =
     utf16 (''You are a helpful AI assistant. Answer the user's question based on the ''
            @ ''following context from a website. Only provide answer if you find something ''
            @ ''don't give any generic answer If the answer cannot be found in the context, ''
            @ ''say so.'')
     @ [0xA, 0xA] @ utf16 ''Context:'' @ [0xA] @ context
     @ [0xA, 0xA] @ utf16 ''Question: '' @ q
     @ [0xA, 0xA] @ utf16 ''Answer:''"

definition query :: "rag_env \<Rightarrow> rag_state \<Rightarrow> js_string \<Rightarrow> (error + js_string) \<times> rag_call list" where
  "query env st q =
     (if q = [] \<or> trim q = [] then (Inl (HttpException ''Query is required'' BAD_REQUEST), [])
      else if \<not> isInitialized st \<or> websiteUrl st = None \<or> websiteUrl st = Some []
      then (Inl state_error, [])
      else
        case generateEmbedding env 0 q of
          Inl e \<Rightarrow> (Inl (query_failure e), [EmbedCall q])
        | Inr queryEmbedding \<Rightarrow>
            (case searchSimilar (documents st) queryEmbedding 5 of
               Inl e \<Rightarrow> (Inl (query_failure e), [EmbedCall q, SearchCall queryEmbedding])
             | Inr similarDocs \<Rightarrow>
                 if length similarDocs = 0
                 then (Inl (query_failure
                              (HttpException ''No relevant content found for your query''
                                 NOT_FOUND)),
                       [EmbedCall q, SearchCall queryEmbedding])
                 else
                   let context = join ([0xA, 0xA] @ utf16 ''---'' @ [0xA, 0xA])
                                   (map doc_text similarDocs);
                       prompt = build_prompt context q;
                       calls = [EmbedCall q, SearchCall queryEmbedding, CompletionCall prompt]
                   in case chat_completion env prompt of
                        Inl e \<Rightarrow> (Inl (query_failure e), calls)
                      | Inr content \<Rightarrow>
                          (Inr (case content of
                                  None \<Rightarrow> utf16 ''No answer generated''
                                | Some c \<Rightarrow> if c = [] then utf16 ''No answer generated'' else c),
                           calls)))"

section \<open>Invariants\<close>

text \<open>
  What holds of the \<open>i\<close>-th chunk pushed by \<open>chunkText\<close>, and the invariant of its loop:
  the index counts the chunks pushed so far and the next start is that many chunk sizes.
\<close>

definition chunk_ok :: "js_string \<Rightarrow> nat \<Rightarrow> TextChunk \<Rightarrow> bool" where
  "chunk_ok text i c \<longleftrightarrow>
     index c = int i \<and> startChar c = int i * chunkSize \<and> startChar c < endChar c \<and>
     endChar c \<le> startChar c + chunkSize \<and> endChar c \<le> int (length text) \<and>
     endChar c = findSentenceBoundary text (startChar c)
                   (min (startChar c + chunkSize) (int (length text))) \<and>
     chunk_text c = slice text (startChar c) (endChar c)"

definition chunk_inv :: "js_string \<Rightarrow> chunk_state \<Rightarrow> bool" where
  "chunk_inv text = (\<lambda>(start, idx, chunks).
     idx = int (length chunks) \<and> start = idx * chunkSize \<and>
     (\<forall>i < length chunks. chunk_ok text i (chunks ! i)))"

text \<open>
  What holds of the requests of a crawl: once the page of \<open>u\<close> has been scraped, the only
  later request for \<open>u\<close> is the request for its links that follows at once. The invariant
  of the loop adds that every page scraped is in \<open>visitedUrls\<close>.
\<close>

definition log_ok :: "fetch_event list \<Rightarrow> bool" where
  "log_ok evs \<longleftrightarrow>
     (\<forall>i j u. i < j \<and> j < length evs \<and> evs ! i = ScrapePage u True \<and> event_url (evs ! j) = u
        \<longrightarrow> j = Suc i \<and> evs ! j = ExtractLinks u)"

definition crawl_inv :: "crawl_state \<Rightarrow> bool" where
  "crawl_inv st \<longleftrightarrow>
     log_ok (fetch_log st) \<and>
     (\<forall>u. ScrapePage u True \<in> set (fetch_log st) \<longrightarrow> u \<in> set (visitedUrls st))"






section \<open>Example environments\<close>

text \<open>
  The state of the service when it is constructed (the initialisers of its fields), and a
  state after a successful \<open>initializeRag\<close>.
\<close>

definition initial_state :: rag_state where
  "initial_state = \<lparr>websiteUrl = None, isInitialized = False, documents = []\<rparr>"

definition ready_state :: rag_state where
  "ready_state =
     \<lparr>websiteUrl = Some (utf16 ''https://x.com''), isInitialized = True,
      documents = [\<lparr>doc_id = utf16 ''chunk_0_1'', doc_text = utf16 ''old'', embedding = [d_int 1, d_int 0],
                     metadata = None\<rparr>]\<rparr>"

text \<open>A network on which every request fails.\<close>

definition offline_crawl :: crawl_env where
  "offline_crawl =
     \<lparr>url_origin = (\<lambda>u. Inr (take 13 u)),
      scrapeSinglePage = (\<lambda>n u. Inl (Error ''Network Error'')),
      page_links = (\<lambda>n u. Inl (Error ''Network Error''))\<rparr>"

definition offline_env :: rag_env where
  "offline_env =
     \<lparr>crawler = (\<lambda>k. offline_crawl),
      embedContent = (\<lambda>k t. Inl (Error ''Network Error'')),
      date_now = (\<lambda>k. 0),
      chat_completion = (\<lambda>p. Inl (Error ''Network Error''))\<rparr>"

text \<open>
  A site of three pages. The page \<open>/d\<close> links to \<open>/d/a/b\<close> and to \<open>/d/a\<close>, the page
  \<open>/d/a\<close> links to \<open>/d/a/b\<close>, and every request for \<open>/d/a/b\<close> fails.
\<close>

definition example_site :: crawl_env where
  "example_site =
     \<lparr>url_origin = (\<lambda>u. Inr (utf16 ''https://x.com'')),
      scrapeSinglePage = (\<lambda>n u.
         if u = utf16 ''https://x.com/d/a/b''
         then Inl (Error ''Request failed with status code 500'')
         else Inr (utf16 ''text'')),
      page_links = (\<lambda>n u.
         if u = utf16 ''https://x.com/d''
         then Inr [utf16 ''https://x.com/d/a/b'', utf16 ''https://x.com/d/a'']
         else if u = utf16 ''https://x.com/d/a'' then Inr [utf16 ''https://x.com/d/a/b'']
         else Inr [])\<rparr>"

text \<open>The example site is reachable, the embedder and the answer generator are not.\<close>

definition embedder_down_env :: rag_env where
  "embedder_down_env =
     \<lparr>crawler = (\<lambda>k. example_site),
      embedContent = (\<lambda>k t. Inl (Error ''Network Error'')),
      date_now = (\<lambda>k. 0),
      chat_completion = (\<lambda>p. Inl (Error ''Network Error''))\<rparr>"






text \<open>
  The number literals \<open>1e-200\<close> and \<open>1e200\<close>: the binary64 values nearest to
  \<open>10\<^sup>-\<^sup>2\<^sup>0\<^sup>0\<close> and \<open>10\<^sup>2\<^sup>0\<^sup>0\<close>. The square of the first is below the least positive
  number, the square of the second is beyond the largest finite one.
\<close>

definition d_tiny :: double where
  "d_tiny = Finite False 6894565328877484 (- 717)"

definition d_huge :: double where
  "d_huge = Finite False 5883593420661338 612"


section \<open>Properties of the chunker\<close>

lemma exec_sentenceEnd_bounds:
  "exec_sentenceEnd s i = Some (j, l) \<Longrightarrow> i \<le> j \<and> 2 \<le> l \<and> j + l \<le> i + length s"
proof (induction s arbitrary: i)
  case Nil
  then show ?case by simp
next
  case (Cons c cs)
  show ?case
  proof (cases "is_sentence_punct c \<and> (case cs of [] \<Rightarrow> False | d # _ \<Rightarrow> is_space d)")
    case True
    then obtain d ds where cs: "cs = d # ds" and d: "is_space d"
      by (cases cs) auto
    from True Cons.prems have j: "j = i" and l: "l = 1 + length (takeWhile is_space cs)"
      by auto
    have "length (takeWhile is_space cs) \<le> length cs"
      by (rule length_takeWhile_le)
    moreover have "1 \<le> length (takeWhile is_space cs)"
      using cs d by simp
    ultimately show ?thesis using j l by simp
  next
    case False
    with Cons.prems have "exec_sentenceEnd cs (i + 1) = Some (j, l)"
      by (simp split: if_splits)
    from Cons.IH [OF this] show ?thesis by simp
  qed
qed

lemma exec_paragraphEnd_bounds:
  "exec_paragraphEnd s i = Some (j, l) \<Longrightarrow> i \<le> j \<and> l = 2 \<and> j + l \<le> i + length s"
proof (induction s i rule: exec_paragraphEnd.induct)
  case (1 c d cs i)
  then show ?case by (auto split: if_splits)
qed simp_all

lemma length_slice:
  "0 \<le> a \<Longrightarrow> a \<le> b \<Longrightarrow> b \<le> int (length s) \<Longrightarrow> length (slice s a b) = nat (b - a)"
  by (auto simp add: slice_def Let_def min_def)

lemma slice_whole: "slice s 0 (int (length s)) = s"
  by (simp add: slice_def)

lemma findSentenceBoundary_bounds:
  assumes "0 \<le> start" and "start < endc" and "endc \<le> int (length text)"
  shows "start < findSentenceBoundary text start endc \<and> findSentenceBoundary text start endc \<le> endc"
proof -
  define searchStart where "searchStart = max start (endc - 200)"
  define searchText where "searchText = slice text searchStart endc"
  have ss: "start \<le> searchStart" "searchStart < endc" "0 \<le> searchStart"
    using assms by (auto simp: searchStart_def)
  have len: "int (length searchText) = endc - searchStart"
    using ss assms(3) by (simp add: searchText_def length_slice)
  show ?thesis
  proof (cases "exec_sentenceEnd searchText 0")
    case (Some p)
    obtain j l where p: "p = (j, l)" by (cases p)
    from exec_sentenceEnd_bounds [of searchText 0 j l] Some p
    have "2 \<le> l" "j + l \<le> length searchText" by auto
    then have "2 \<le> int j + int l" "int j + int l \<le> endc - searchStart"
      using len by linarith+
    moreover have "findSentenceBoundary text start endc = searchStart + int j + int l"
      using Some p by (simp add: findSentenceBoundary_def searchStart_def searchText_def Let_def)
    ultimately show ?thesis using ss by linarith
  next
    case None
    show ?thesis
    proof (cases "exec_paragraphEnd searchText 0")
      case (Some p)
      obtain j l where p: "p = (j, l)" by (cases p)
      from exec_paragraphEnd_bounds [of searchText 0 j l] Some p
      have "l = 2" "j + l \<le> length searchText" by auto
      then have "2 \<le> int j + int l" "int j + int l \<le> endc - searchStart"
        using len by linarith+
      moreover have "findSentenceBoundary text start endc = searchStart + int j + int l"
        using Some p None
        by (simp add: findSentenceBoundary_def searchStart_def searchText_def Let_def)
      ultimately show ?thesis using ss by linarith
    next
      case None2: None
      have "findSentenceBoundary text start endc = endc"
        using None None2
        by (simp add: findSentenceBoundary_def searchStart_def searchText_def Let_def)
      then show ?thesis using assms by simp
    qed
  qed
qed

lemma chunk_inv_init: "chunk_inv text (0, 0, [])"
  by (simp add: chunk_inv_def)

lemma loop_body_start:
  assumes "0 \<le> start" and "start < int (length text)" and "0 \<le> overlap"
  shows "loop_body overlap text (start, idx, chunks) =
     (start + chunkSize, idx + 1,
      chunks @ [\<lparr>chunk_text = slice text start
                    (findSentenceBoundary text start (min (start + chunkSize) (int (length text)))),
                  index = idx, startChar = start,
                  endChar = findSentenceBoundary text start
                    (min (start + chunkSize) (int (length text)))\<rparr>])"
proof -
  let ?endc = "min (start + chunkSize) (int (length text))"
  have "start < ?endc" "?endc \<le> int (length text)"
    using assms by (simp_all add: chunkSize_def)
  from findSentenceBoundary_bounds [OF assms(1) this]
  have "findSentenceBoundary text start ?endc \<le> start + chunkSize"
    by simp
  then have "max (findSentenceBoundary text start ?endc - overlap) (start + chunkSize)
      = start + chunkSize"
    using assms(3) by simp
  then show ?thesis
    by (simp add: loop_body_def Let_def)
qed

lemma chunk_inv_step:
  assumes inv: "chunk_inv text st" and c: "loop_cond text st" and ov: "0 \<le> overlap"
  shows "chunk_inv text (loop_body overlap text st)"
proof -
  obtain start idx chunks where st: "st = (start, idx, chunks)"
    by (cases st)
  from inv st have idx: "idx = int (length chunks)" and start: "start = idx * chunkSize"
    and old: "\<forall>i < length chunks. chunk_ok text i (chunks ! i)"
    by (simp_all add: chunk_inv_def)
  from idx start have s0: "0 \<le> start"
    by (simp add: chunkSize_def)
  from c st have lt: "start < int (length text)"
    by (simp add: loop_cond_def)
  let ?endc = "min (start + chunkSize) (int (length text))"
  let ?e = "findSentenceBoundary text start ?endc"
  let ?c = "\<lparr>chunk_text = slice text start ?e, index = idx, startChar = start, endChar = ?e\<rparr>"
  have body: "loop_body overlap text st = (start + chunkSize, idx + 1, chunks @ [?c])"
    using loop_body_start [OF s0 lt ov] st by simp
  have "start < ?endc" "?endc \<le> int (length text)"
    using lt by (simp_all add: chunkSize_def)
  from findSentenceBoundary_bounds [OF s0 this]
  have b: "start < ?e" "?e \<le> start + chunkSize" "?e \<le> int (length text)"
    by simp_all
  have new: "chunk_ok text (length chunks) ?c"
    using b idx start by (simp add: chunk_ok_def)
  have f3: "\<forall>i < length (chunks @ [?c]). chunk_ok text i ((chunks @ [?c]) ! i)"
    using old new by (auto simp: nth_append less_Suc_eq)
  have f1: "idx + 1 = int (length (chunks @ [?c]))"
    using idx by simp
  have f2: "start + chunkSize = (idx + 1) * chunkSize"
    using start by (simp add: algebra_simps)
  have "chunk_inv text (start + chunkSize, idx + 1, chunks @ [?c])"
    unfolding chunk_inv_def prod.case by (intro conjI) (rule f1, rule f2, rule f3)
  then show ?thesis
    by (simp only: body)
qed

lemma chunk_inv_loop:
  "chunk_inv tx st \<Longrightarrow> 0 \<le> ov \<Longrightarrow> chunk_inv tx (chunk_loop ov tx st)"
proof (induction ov tx st rule: chunk_loop.induct)
  case (1 ov tx st)
  show ?case
  proof (cases "loop_cond tx st")
    case True
    then have "chunk_inv tx (chunk_loop ov tx (loop_body ov tx st))"
      using 1 chunk_inv_step by blast
    then show ?thesis using True by (subst chunk_loop.simps) simp
  next
    case False
    then show ?thesis using 1 by (subst chunk_loop.simps) simp
  qed
qed

lemma chunk_loop_exit: "\<not> loop_cond tx (chunk_loop ov tx st)"
proof (induction ov tx st rule: chunk_loop.induct)
  case (1 ov tx st)
  then show ?case
    by (subst chunk_loop.simps) simp
qed

lemma chunk_loop_overlap:
  "chunk_inv tx st \<Longrightarrow> 0 \<le> ov \<Longrightarrow> 0 \<le> ov2
    \<Longrightarrow> chunk_loop ov tx st = chunk_loop ov2 tx st"
proof (induction ov tx st rule: chunk_loop.induct)
  case (1 ov tx st)
  show ?case
  proof (cases "loop_cond tx st")
    case True
    obtain start idx chunks where st: "st = (start, idx, chunks)"
      by (cases st)
    from "1.prems"(1) st have s0: "0 \<le> start"
      by (simp add: chunk_inv_def chunkSize_def)
    from True st have lt: "start < int (length tx)"
      by (simp add: loop_cond_def)
    have eq: "loop_body ov tx st = loop_body ov2 tx st"
      using loop_body_start [OF s0 lt] "1.prems" st by simp
    have "chunk_loop ov tx (loop_body ov tx st)
        = chunk_loop ov2 tx (loop_body ov tx st)"
      using "1.IH" [OF True] chunk_inv_step [OF "1.prems"(1) True "1.prems"(2)] "1.prems"
      by blast
    then show ?thesis
      using True eq
      by (subst chunk_loop.simps, subst (2) chunk_loop.simps) simp
  next
    case False
    then show ?thesis
      by (subst chunk_loop.simps, subst (2) chunk_loop.simps) simp
  qed
qed

lemma chunk_loop_while:
  "while_option (loop_cond tx) (loop_body ov tx) st = Some (chunk_loop ov tx st)"
proof (induction ov tx st rule: chunk_loop.induct)
  case (1 ov tx st)
  show ?case
  proof (cases "loop_cond tx st")
    case True
    with 1 show ?thesis
      by (subst while_option_unfold, subst chunk_loop.simps) simp
  next
    case False
    then show ?thesis
      by (subst while_option_unfold, subst chunk_loop.simps) simp
  qed
qed

text \<open>The final state of the loop and the chunks it holds.\<close>

lemma chunkText_final:
  "chunk_loop chunkOverlap text (0, 0, [])
     = (int (length (chunkText text)) * chunkSize, int (length (chunkText text)), chunkText text)"
proof -
  obtain start idx chunks where f: "chunk_loop chunkOverlap text (0, 0, []) = (start, idx, chunks)"
    by (cases "chunk_loop chunkOverlap text (0, 0, [])")
  have "chunk_inv text (chunk_loop chunkOverlap text (0, 0, []))"
    by (rule chunk_inv_loop [OF chunk_inv_init]) (simp add: chunkOverlap_def)
  then show ?thesis
    using f by (simp add: chunk_inv_def chunkText_def)
qed

lemma chunkText_chunk_ok:
  "i < length (chunkText text) \<Longrightarrow> chunk_ok text i (chunkText text ! i)"
proof -
  have "chunk_inv text (chunk_loop chunkOverlap text (0, 0, []))"
    by (rule chunk_inv_loop [OF chunk_inv_init]) (simp add: chunkOverlap_def)
  then show "i < length (chunkText text) \<Longrightarrow> chunk_ok text i (chunkText text ! i)"
    unfolding chunkText_final by (simp add: chunk_inv_def)
qed

lemma length_chunkText: "int (length (chunkText text)) = (int (length text) + 999) div 1000"
proof -
  let ?n = "length (chunkText text)"
  have "\<not> loop_cond text (chunk_loop chunkOverlap text (0, 0, []))"
    by (rule chunk_loop_exit)
  then have up: "int (length text) \<le> int ?n * 1000"
    unfolding chunkText_final by (simp add: loop_cond_def chunkSize_def)
  have lo: "(int ?n - 1) * 1000 < int (length text)" if "0 < ?n"
  proof -
    from that have "?n - 1 < ?n" by simp
    from chunkText_chunk_ok [OF this]
    have "int (?n - 1) * chunkSize < int (length text)"
      by (simp add: chunk_ok_def)
    then show ?thesis using that by (simp add: chunkSize_def of_nat_diff)
  qed
  show ?thesis
  proof (cases "0 < ?n")
    case True
    define r where "r = int (length text) + 999 - 1000 * int ?n"
    have "int (length text) + 999 = 1000 * int ?n + r" "0 \<le> r" "r < 1000"
      using lo [OF True] up by (simp_all add: r_def)
    then have "(int (length text) + 999) div 1000 = int ?n"
      by (rule int_div_pos_eq)
    then show ?thesis by simp
  next
    case False
    with up show ?thesis by simp
  qed
qed

lemma chunk_ok_start: "chunk_ok text i c \<Longrightarrow> startChar c = int i * chunkSize"
  unfolding chunk_ok_def by blast

lemma chunk_ok_end: "chunk_ok text i c \<Longrightarrow> endChar c \<le> startChar c + chunkSize"
  unfolding chunk_ok_def by blast

lemma findSentenceBoundary_no_match:
  "exec_sentenceEnd (slice text (max start (endc - 200)) endc) 0 = None \<Longrightarrow>
   exec_paragraphEnd (slice text (max start (endc - 200)) endc) 0 = None \<Longrightarrow>
   findSentenceBoundary text start endc = endc"
  by (simp add: findSentenceBoundary_def Let_def)

text \<open>
  C1 (chunker coverage), evaluated at the text \<open>Hi. Bye\<close> of 7 characters. The window
  holds the sentence boundary \<open>. \<close>, so the only chunk ends at offset 4; the next start is
  \<open>max (4 - 200) (0 + 1000) = 1000\<close>, past the end of the text, and the loop stops. The
  characters at offsets 4, 5 and 6 are in no chunk, and the last chunk does not end at the
  length of the text.
\<close>

theorem chunkText_drops_tail:
  "chunkText (utf16 ''Hi. Bye'')
     = [\<lparr>chunk_text = utf16 ''Hi. '', index = 0, startChar = 0, endChar = 4\<rparr>]
   \<and> int (length (utf16 ''Hi. Bye'')) = 7"
  by code_simp

text \<open>
  C6 (chunker termination). One iteration moves \<open>startChar\<close> forward by at least the chunk
  size, whatever the state and the overlap. The loop of \<open>chunkText\<close>, as a while loop
  that may fail to terminate (\<open>while_option\<close> gives \<open>None\<close> then), terminates from the
  initial state, in the state that holds the chunks returned; and it runs
  \<open>\<lceil>length text / 1000\<rceil>\<close> iterations, one for each chunk.
\<close>

theorem chunkText_terminates:
  "fst st + chunkSize \<le> fst (loop_body overlap text st)
   \<and> while_option (loop_cond text) (loop_body chunkOverlap text) (0, 0, [])
       = Some (int (length (chunkText text)) * chunkSize, int (length (chunkText text)),
               chunkText text)
   \<and> int (length (chunkText text)) = (int (length text) + 999) div 1000"
proof (intro conjI)
  show "fst st + chunkSize \<le> fst (loop_body overlap text st)"
    by (cases st) (simp add: loop_body_def Let_def)
  show "while_option (loop_cond text) (loop_body chunkOverlap text) (0, 0, [])
       = Some (int (length (chunkText text)) * chunkSize, int (length (chunkText text)),
               chunkText text)"
    by (simp only: chunk_loop_while chunkText_final)
  show "int (length (chunkText text)) = (int (length text) + 999) div 1000"
    by (rule length_chunkText)
qed

text \<open>
  C4 (short text), as amended. The empty text gives no chunk. A non-empty text shorter
  than the chunk size, for which boundary snapping leaves the end at the length of the
  text, gives exactly one chunk, which covers the whole text. Snapping leaves the end
  there whenever the window of the last 200 characters holds neither a sentence boundary
  nor a paragraph break.
\<close>

theorem chunkText_short_text:
  "chunkText [] = []
   \<and> (text \<noteq> [] \<and> length text < 1000
        \<and> findSentenceBoundary text 0 (int (length text)) = int (length text)
      \<longrightarrow> chunkText text
            = [\<lparr>chunk_text = text, index = 0, startChar = 0, endChar = int (length text)\<rparr>])
   \<and> (exec_sentenceEnd (slice text (max 0 (int (length text) - 200)) (int (length text))) 0 = None
        \<and> exec_paragraphEnd (slice text (max 0 (int (length text) - 200)) (int (length text))) 0
            = None
      \<longrightarrow> findSentenceBoundary text 0 (int (length text)) = int (length text))"
proof (intro conjI impI)
  have "int (length (chunkText [])) = 0"
    by (simp add: length_chunkText)
  then show "chunkText [] = []"
    by simp
next
  assume a: "text \<noteq> [] \<and> length text < 1000
      \<and> findSentenceBoundary text 0 (int (length text)) = int (length text)"
  then have "0 < int (length text)" "int (length text) < 1000"
    by simp_all
  then have "int (length text) + 999 = 1000 * 1 + (int (length text) - 1)"
    "0 \<le> int (length text) - 1" "int (length text) - 1 < 1000"
    by simp_all
  then have "(int (length text) + 999) div 1000 = 1"
    by (rule int_div_pos_eq)
  then have len: "length (chunkText text) = 1"
    using length_chunkText [of "text"] by simp
  then obtain c where c: "chunkText text = [c]"
    by (cases "chunkText text") auto
  have "chunk_ok text 0 (chunkText text ! 0)"
    by (rule chunkText_chunk_ok) (simp add: len)
  then have "index c = 0" "startChar c = 0" "endChar c = int (length text)" "chunk_text c = text"
    using a c by (simp_all add: chunk_ok_def chunkSize_def slice_whole)
  then have "c = \<lparr>chunk_text = text, index = 0, startChar = 0, endChar = int (length text)\<rparr>"
    by simp
  with c show "chunkText text
      = [\<lparr>chunk_text = text, index = 0, startChar = 0, endChar = int (length text)\<rparr>]"
    by simp
next
  assume "exec_sentenceEnd (slice text (max 0 (int (length text) - 200)) (int (length text))) 0 = None
        \<and> exec_paragraphEnd (slice text (max 0 (int (length text) - 200)) (int (length text))) 0
            = None"
  then show "findSentenceBoundary text 0 (int (length text)) = int (length text)"
    by (simp add: findSentenceBoundary_no_match)
qed

text \<open>
  The text \<open>abc\<close> satisfies the hypotheses of \<open>chunkText_short_text\<close>.
\<close>

theorem chunkText_short_text_witness:
  "utf16 ''abc'' \<noteq> [] \<and> length (utf16 ''abc'') < 1000
   \<and> exec_sentenceEnd (slice (utf16 ''abc'') (max 0 (int (length (utf16 ''abc'')) - 200))
         (int (length (utf16 ''abc'')))) 0 = None
   \<and> exec_paragraphEnd (slice (utf16 ''abc'') (max 0 (int (length (utf16 ''abc'')) - 200))
         (int (length (utf16 ''abc'')))) 0 = None
   \<and> findSentenceBoundary (utf16 ''abc'') 0 (int (length (utf16 ''abc'')))
       = int (length (utf16 ''abc''))
   \<and> chunkText (utf16 ''abc'')
       = [\<lparr>chunk_text = utf16 ''abc'', index = 0, startChar = 0, endChar = 3\<rparr>]"
proof -
  have h1: "utf16 ''abc'' \<noteq> [] \<and> length (utf16 ''abc'') < 1000"
    by (simp add: utf16_def)
  have h2: "exec_sentenceEnd (slice (utf16 ''abc'') (max 0 (int (length (utf16 ''abc'')) - 200))
         (int (length (utf16 ''abc'')))) 0 = None
     \<and> exec_paragraphEnd (slice (utf16 ''abc'') (max 0 (int (length (utf16 ''abc'')) - 200))
         (int (length (utf16 ''abc'')))) 0 = None"
    by code_simp
  have l: "int (length (utf16 ''abc'')) = 3"
    by (simp add: utf16_def)
  from chunkText_short_text [of "utf16 ''abc''"] h1 h2 show ?thesis
    by (simp add: l)
qed

text \<open>
  C4 as stated fails at the text \<open>a. b\<close>: it is not empty and shorter than the chunk size,
  and its only chunk ends at offset 3, where the sentence boundary is, not at its length 4.
\<close>

theorem chunkText_short_text_counterexample:
  "utf16 ''a. b'' \<noteq> [] \<and> length (utf16 ''a. b'') < 1000
   \<and> chunkText (utf16 ''a. b'')
       = [\<lparr>chunk_text = utf16 ''a. '', index = 0, startChar = 0, endChar = 3\<rparr>]
   \<and> int (length (utf16 ''a. b'')) = 4"
  by code_simp

text \<open>
  C5 (boundary snapping), evaluated at the text \<open>a. b. c\<close> with the window \<open>[0, 7)\<close>.
  The window holds two sentence boundaries, ending at offsets 3 and 6. \<open>exec\<close> returns the
  first match, so \<open>findSentenceBoundary\<close> returns 3; the boundary nearest to the tentative
  end, the last match, is at 6.
\<close>

theorem findSentenceBoundary_first_match:
  "findSentenceBoundary (utf16 ''a. b. c'') 0 7 = 3
   \<and> nearest_boundary_spec (utf16 ''a. b. c'') 0 7 = 6"
  by code_simp

text \<open>
  C10 (chunks never overlap). The \<open>i\<close>-th chunk starts at \<open>i * 1000\<close> and ends at most
  1000 characters later, so it ends before the next chunk starts or where it starts. From a
  state inside the text, the advance of one iteration is exactly the chunk size. The
  chunks are the same for any overlap that is not negative: the overlap has no effect.
\<close>

theorem chunks_never_overlap:
  "(i < length (chunkText text) \<longrightarrow>
      startChar (chunkText text ! i) = int i * chunkSize
      \<and> endChar (chunkText text ! i) \<le> startChar (chunkText text ! i) + chunkSize)
   \<and> (Suc i < length (chunkText text) \<longrightarrow>
      endChar (chunkText text ! i) \<le> startChar (chunkText text ! Suc i))
   \<and> (0 \<le> fst st \<and> loop_cond text st \<longrightarrow>
      fst (loop_body chunkOverlap text st) = fst st + chunkSize)
   \<and> (0 \<le> overlap \<longrightarrow> snd (snd (chunk_loop overlap text (0, 0, []))) = chunkText text)"
proof (intro conjI impI)
  assume "i < length (chunkText text)"
  from chunkText_chunk_ok [OF this]
  show "startChar (chunkText text ! i) = int i * chunkSize"
    and "endChar (chunkText text ! i) \<le> startChar (chunkText text ! i) + chunkSize"
    by (rule chunk_ok_start, rule chunk_ok_end)
next
  assume s: "Suc i < length (chunkText text)"
  then have "i < length (chunkText text)"
    by simp
  from chunkText_chunk_ok [OF this] chunkText_chunk_ok [OF s]
  have "endChar (chunkText text ! i) \<le> int i * chunkSize + chunkSize"
    and "startChar (chunkText text ! Suc i) = int (Suc i) * chunkSize"
    using chunk_ok_start chunk_ok_end by fastforce+
  then show "endChar (chunkText text ! i) \<le> startChar (chunkText text ! Suc i)"
    by (simp add: algebra_simps)
next
  assume a: "0 \<le> fst st \<and> loop_cond text st"
  obtain start idx chunks where st: "st = (start, idx, chunks)"
    by (cases st)
  from a st have "0 \<le> start" "start < int (length text)"
    by (simp_all add: loop_cond_def)
  from loop_body_start [OF this, of chunkOverlap idx chunks]
  show "fst (loop_body chunkOverlap text st) = fst st + chunkSize"
    using st by (simp add: chunkOverlap_def)
next
  assume "0 \<le> overlap"
  then have "chunk_loop overlap text (0, 0, []) = chunk_loop chunkOverlap text (0, 0, [])"
    by (intro chunk_loop_overlap chunk_inv_init) (simp_all add: chunkOverlap_def)
  then show "snd (snd (chunk_loop overlap text (0, 0, []))) = chunkText text"
    by (simp add: chunkText_def)
qed

text \<open>
  A text of 1001 characters \<open>a\<close> has two chunks, and satisfies the hypotheses of
  \<open>chunks_never_overlap\<close> at \<open>i = 0\<close>, from the initial state and with overlap 500.
\<close>

theorem chunks_never_overlap_witness:
  "0 < length (chunkText (replicate 1001 0x61))
   \<and> Suc 0 < length (chunkText (replicate 1001 0x61))
   \<and> startChar (chunkText (replicate 1001 0x61) ! 0) = 0
   \<and> endChar (chunkText (replicate 1001 0x61) ! 0) \<le> 1000
   \<and> endChar (chunkText (replicate 1001 0x61) ! 0)
       \<le> startChar (chunkText (replicate 1001 0x61) ! Suc 0)
   \<and> (0::int) \<le> fst (0::int, 0::int, [] :: TextChunk list)
   \<and> loop_cond (replicate 1001 0x61) (0, 0, [])
   \<and> fst (loop_body chunkOverlap (replicate 1001 0x61) (0, 0, [])) = 1000
   \<and> (0::int) \<le> 500
   \<and> snd (snd (chunk_loop 500 (replicate 1001 0x61) (0, 0, [])))
       = chunkText (replicate 1001 0x61)"
proof -
  have "int (length (chunkText (replicate 1001 0x61))) = 2"
    by (simp add: length_chunkText)
  then have l: "length (chunkText (replicate 1001 0x61)) = 2"
    by simp
  have c: "loop_cond (replicate 1001 0x61) (0, 0, [])"
    by (simp add: loop_cond_def)
  from chunks_never_overlap [of 0 "replicate 1001 0x61" "(0, 0, [])" 500] l c
  show ?thesis
    by (simp add: chunkSize_def)
qed

text \<open>
  The loop of \<open>chunkText\<close> on the text \<open>Hi. Bye\<close> stops after one iteration.
\<close>

theorem chunkText_terminates_witness:
  "while_option (loop_cond (utf16 ''Hi. Bye'')) (loop_body chunkOverlap (utf16 ''Hi. Bye''))
     (0, 0, [])
     = Some (1000, 1, [\<lparr>chunk_text = utf16 ''Hi. '', index = 0, startChar = 0, endChar = 4\<rparr>])
   \<and> int (length (chunkText (utf16 ''Hi. Bye''))) = (7 + 999) div 1000"
proof -
  have c: "chunkText (utf16 ''Hi. Bye'')
      = [\<lparr>chunk_text = utf16 ''Hi. '', index = 0, startChar = 0, endChar = 4\<rparr>]"
    by code_simp
  have l: "int (length (utf16 ''Hi. Bye'')) = 7"
    by (simp add: utf16_def)
  from chunkText_terminates [of "(0, 0, [])" 0 "utf16 ''Hi. Bye''"] show ?thesis
    by (simp add: c l chunkSize_def)
qed
section \<open>Properties of binary64 arithmetic\<close>































section \<open>Properties of the vector database\<close>












text \<open>
  The norm of the specification, squared, is the dot product of the vector with itself,
  so the cosine similarity of a vector of non-zero norm to itself is 1.
\<close>

lemma exact_dot_self: "exact_dot a a = sum_list (map (\<lambda>x. d_value x * d_value x) a)"
  by (simp add: exact_dot_def zip_same_conv_map comp_def)

lemma exact_norm_square: "exact_norm a * exact_norm a = exact_dot a a"
proof -
  have "0 \<le> sum_list (map (\<lambda>x. d_value x * d_value x) a)"
    by (intro sum_list_nonneg) auto
  then show ?thesis
    by (simp add: exact_norm_def exact_dot_self)
qed

lemma exact_cosine_self: "exact_norm a \<noteq> 0 \<Longrightarrow> exact_cosine a a = 1"
  by (simp add: exact_cosine_def flip: exact_norm_square)

lemma exact_norm_pair: "0 < d_value x \<Longrightarrow> exact_norm [x, x] \<noteq> 0"
  by (simp add: exact_norm_def)

text \<open>
  C3 as stated, of the norms and the quotient of the specification, fails. The vector
  \<open>(1e-200, 1e-200)\<close> has a norm that is not zero, and its cosine similarity to itself is
  1; the squares of its components are rounded to zero, and \<open>cosineSimilarity\<close> returns 0.
  The vector \<open>(1e200, 1e200)\<close> has cosine similarity 1 to itself; the squares of its
  components are rounded to infinity, and \<open>cosineSimilarity\<close> returns NaN.
\<close>

theorem cosineSimilarity_guard_counterexample:
  "is_double d_tiny \<and> is_finite d_tiny \<and> \<not> is_zero d_tiny
   \<and> length [d_tiny, d_tiny] = length [d_tiny, d_tiny]
   \<and> exact_norm [d_tiny, d_tiny] \<noteq> 0
   \<and> exact_cosine [d_tiny, d_tiny] [d_tiny, d_tiny] = 1
   \<and> cosineSimilarity [d_tiny, d_tiny] [d_tiny, d_tiny] = Inr d_zero
   \<and> d_value d_zero = 0
   \<and> is_double d_huge \<and> is_finite d_huge
   \<and> exact_norm [d_huge, d_huge] \<noteq> 0
   \<and> exact_cosine [d_huge, d_huge] [d_huge, d_huge] = 1
   \<and> cosineSimilarity [d_huge, d_huge] [d_huge, d_huge] = Inr NaN"
proof -
  have t: "0 < d_value d_tiny" and h: "0 < d_value d_huge"
    by (simp_all add: d_tiny_def d_huge_def)
  have c: "cosineSimilarity [d_tiny, d_tiny] [d_tiny, d_tiny] = Inr d_zero"
    "cosineSimilarity [d_huge, d_huge] [d_huge, d_huge] = Inr NaN"
    by code_simp+
  have d: "is_double d_tiny" "is_double d_huge"
    by (simp_all add: is_double_def d_tiny_def d_huge_def)
  show ?thesis
    using exact_norm_pair [OF t] exact_norm_pair [OF h] c d
    by (simp add: exact_cosine_self) (simp add: d_tiny_def d_huge_def d_zero_def)
qed

























section \<open>Properties of the orchestrator\<close>

text \<open>
  C7 (failed Initialize leaves the index untouched). Whenever \<open>initializeRag\<close> fails, the
  stored documents after the run are the documents before it. In particular when no seed
  yields content, when there are no chunks, or when the embedder fails: the run then
  fails, and the documents and the flag \<open>isInitialized\<close> are unchanged.
\<close>

theorem initializeRag_failure_atomic:
  "(fst (initializeRag env st urls) = Inl e \<longrightarrow>
      documents (snd (initializeRag env st urls)) = documents st)
   \<and> (scrape_all env urls = []
       \<or> chunkText (join [0xA, 0xA] (scrape_all env urls)) = []
       \<or> generateEmbeddings env
            (map chunk_text (chunkText (join [0xA, 0xA] (scrape_all env urls)))) = Inl e' \<longrightarrow>
      (\<exists>err. fst (initializeRag env st urls) = Inl err)
      \<and> documents (snd (initializeRag env st urls)) = documents st
      \<and> isInitialized (snd (initializeRag env st urls)) = isInitialized st)"
  by (auto simp: initializeRag_def Let_def split: sum.splits)

text \<open>
  Two failing runs from a state that holds one document: on the network on which every
  request fails no seed yields content, and on the example site with the embedder down
  the chunks get no vectors. Both leave the document where it was.
\<close>

theorem initializeRag_failure_atomic_witness:
  "scrape_all offline_env [utf16 ''https://x.com''] = []
   \<and> fst (initializeRag offline_env ready_state [utf16 ''https://x.com''])
       = Inl (init_failure (HttpException ''No content scraped from any website'' BAD_REQUEST))
   \<and> documents (snd (initializeRag offline_env ready_state [utf16 ''https://x.com'']))
       = documents ready_state
   \<and> isInitialized (snd (initializeRag offline_env ready_state [utf16 ''https://x.com'']))
       = isInitialized ready_state
   \<and> generateEmbeddings embedder_down_env
         (map chunk_text
            (chunkText (join [0xA, 0xA]
               (scrape_all embedder_down_env [utf16 ''https://x.com/d'']))))
       = Inl (HttpException ''Failed to generate embedding: Network Error''
                INTERNAL_SERVER_ERROR)
   \<and> fst (initializeRag embedder_down_env ready_state [utf16 ''https://x.com/d''])
       = Inl (init_failure (HttpException ''Failed to generate embedding: Network Error''
                              INTERNAL_SERVER_ERROR))
   \<and> documents (snd (initializeRag embedder_down_env ready_state [utf16 ''https://x.com/d'']))
       = documents ready_state"
proof -
  have c: "crawl_loop offline_crawl (crawl_init (utf16 ''https://x.com''))
      = \<lparr>urlsToVisit = [], visitedUrls = [], allContent = [], iteration = 1,
         fetch_log = [ScrapePage (utf16 ''https://x.com'') False]\<rparr>"
    by (simp add: crawl_loop.simps crawl_cond_def crawl_body_def crawl_init_def offline_crawl_def
        maxPages_def)
  have w: "fst (scrapeWebsite offline_crawl (utf16 ''https://x.com''))
      = Inl (HttpException ''No content found on any pages'' BAD_REQUEST)"
    unfolding scrapeWebsite_def c by (simp add: offline_crawl_def trim_def)
  have s: "scrape_all offline_env [utf16 ''https://x.com''] = []"
    by (simp add: scrape_all_def offline_env_def w)
  have f: "fst (initializeRag offline_env ready_state [utf16 ''https://x.com''])
       = Inl (init_failure (HttpException ''No content scraped from any website'' BAD_REQUEST))"
    by (simp add: initializeRag_def s)
  have g: "generateEmbeddings embedder_down_env
         (map chunk_text
            (chunkText (join [0xA, 0xA]
               (scrape_all embedder_down_env [utf16 ''https://x.com/d'']))))
       = Inl (HttpException ''Failed to generate embedding: Network Error''
                INTERNAL_SERVER_ERROR)"
    by code_simp
  have f2: "fst (initializeRag embedder_down_env ready_state [utf16 ''https://x.com/d''])
       = Inl (init_failure (HttpException ''Failed to generate embedding: Network Error''
                              INTERNAL_SERVER_ERROR))"
    by code_simp
  from initializeRag_failure_atomic [of offline_env ready_state "[utf16 ''https://x.com'']"
      "init_failure (HttpException ''No content scraped from any website'' BAD_REQUEST)"]
    initializeRag_failure_atomic [of embedder_down_env ready_state "[utf16 ''https://x.com/d'']"
      "init_failure (HttpException ''Failed to generate embedding: Network Error''
                       INTERNAL_SERVER_ERROR)"
      "HttpException ''Failed to generate embedding: Network Error'' INTERNAL_SERVER_ERROR"]
    s f g f2
  show ?thesis
    by simp
qed

text \<open>
  C8 (query before Ready), as amended. While the service is not initialised, every query
  fails and no call is made to the embedder, the vector database or the answer generator.
  A query that is not blank fails with the state error; a blank query (empty, or white
  space only) fails with the error \<open>Query is required\<close>, whatever the state.
\<close>

theorem query_before_ready:
  "(\<not> isInitialized st \<longrightarrow>
      (\<exists>e. fst (query env st q) = Inl e) \<and> snd (query env st q) = [])
   \<and> (\<not> isInitialized st \<and> trim q \<noteq> [] \<longrightarrow> query env st q = (Inl state_error, []))
   \<and> (trim q = [] \<longrightarrow>
      query env st q = (Inl (HttpException ''Query is required'' BAD_REQUEST), []))"
  by (auto simp: query_def trim_def)

text \<open>
  In the initial state, the query \<open>hi\<close> fails with the state error and the query of one
  space with \<open>Query is required\<close>, both without a call.
\<close>

theorem query_before_ready_witness:
  "\<not> isInitialized initial_state \<and> trim (utf16 ''hi'') \<noteq> []
   \<and> query offline_env initial_state (utf16 ''hi'') = (Inl state_error, [])
   \<and> trim [0x20] = []
   \<and> query offline_env initial_state [0x20]
       = (Inl (HttpException ''Query is required'' BAD_REQUEST), [])"
proof -
  have h: "\<not> isInitialized initial_state" "trim (utf16 ''hi'') \<noteq> []" "trim [0x20] = []"
    by (simp_all add: initial_state_def trim_def utf16_def is_space_def)
  from query_before_ready [of initial_state offline_env "utf16 ''hi''"]
    query_before_ready [of initial_state offline_env "[0x20]"] h
  show ?thesis
    by simp
qed

text \<open>
  C8 as stated fails at the query of one space in the initial state: the service is not
  initialised, and the error is \<open>Query is required\<close>, not the state error.
\<close>

theorem query_before_ready_counterexample:
  "\<not> isInitialized initial_state
   \<and> query offline_env initial_state [0x20]
       = (Inl (HttpException ''Query is required'' BAD_REQUEST), [])
   \<and> HttpException ''Query is required'' BAD_REQUEST \<noteq> state_error"
  by (simp add: query_def initial_state_def trim_def is_space_def state_error_def)

section \<open>Properties of the crawler\<close>

lemma enqueue_links_new:
  "\<exists>new. enqueue_links visited queue links = queue @ new \<and> distinct new
      \<and> set new \<inter> (set visited \<union> set queue) = {} \<and> set new \<subseteq> set links"
  unfolding enqueue_links_def
proof (induction links arbitrary: queue)
  case Nil
  then show ?case by simp
next
  case (Cons l links)
  show ?case
  proof (cases "l \<notin> set visited \<and> l \<notin> set queue")
    case True
    from Cons [of "queue @ [l]"] obtain new where
      n: "fold (\<lambda>link q. if link \<notin> set visited \<and> link \<notin> set q then q @ [link] else q) links
            (queue @ [l]) = (queue @ [l]) @ new"
      "distinct new" "set new \<inter> (set visited \<union> set (queue @ [l])) = {}" "set new \<subseteq> set links"
      by blast
    have "distinct (l # new)" "set (l # new) \<inter> (set visited \<union> set queue) = {}"
      "set (l # new) \<subseteq> set (l # links)"
      using n True by auto
    moreover have "fold (\<lambda>link q. if link \<notin> set visited \<and> link \<notin> set q then q @ [link] else q)
        (l # links) queue = queue @ (l # new)"
      using n(1) True by simp
    ultimately show ?thesis
      by blast
  next
    case False
    from Cons [of queue] obtain new where
      n: "fold (\<lambda>link q. if link \<notin> set visited \<and> link \<notin> set q then q @ [link] else q) links
            queue = queue @ new"
      "distinct new" "set new \<inter> (set visited \<union> set queue) = {}" "set new \<subseteq> set links"
      by blast
    have "fold (\<lambda>link q. if link \<notin> set visited \<and> link \<notin> set q then q @ [link] else q)
        (l # links) queue = queue @ new"
      using n(1) False by auto
    moreover have "set new \<subseteq> set (l # links)"
      using n(4) by auto
    ultimately show ?thesis
      using n(2,3) by blast
  qed
qed

lemma distinct_enqueue_links:
  "distinct queue \<Longrightarrow> distinct (enqueue_links visited queue links)"
proof -
  assume d: "distinct queue"
  obtain new where "enqueue_links visited queue links = queue @ new" "distinct new"
    "set new \<inter> (set visited \<union> set queue) = {}"
    using enqueue_links_new by blast
  with d show ?thesis by auto
qed

lemma distinct_crawl_body:
  "distinct (urlsToVisit st) \<Longrightarrow> distinct (urlsToVisit (crawl_body env st))"
  by (auto simp: crawl_body_def Let_def distinct_enqueue_links split: list.splits sum.splits)

lemma distinct_crawl_iter:
  "distinct (urlsToVisit ((crawl_body env ^^ n) (crawl_init baseUrl)))"
  by (induction n) (simp_all add: crawl_init_def distinct_crawl_body)

lemma log_ok_Nil: "log_ok []"
  by (simp add: log_ok_def)

lemma log_okD:
  "log_ok evs \<Longrightarrow> i < j \<Longrightarrow> j < length evs \<Longrightarrow> evs ! i = ScrapePage u True
    \<Longrightarrow> event_url (evs ! j) = u \<Longrightarrow> j = Suc i \<and> evs ! j = ExtractLinks u"
  unfolding log_ok_def by blast

lemma log_ok_fail:
  assumes ok: "log_ok evs" and new: "ScrapePage c True \<notin> set evs"
  shows "log_ok (evs @ [ScrapePage c False])"
  unfolding log_ok_def
proof (intro allI impI)
  fix i j u
  assume a: "i < j \<and> j < length (evs @ [ScrapePage c False])
      \<and> (evs @ [ScrapePage c False]) ! i = ScrapePage u True
      \<and> event_url ((evs @ [ScrapePage c False]) ! j) = u"
  then have i: "i < length evs" "evs ! i = ScrapePage u True"
    by (auto simp: nth_append)
  then have mem: "ScrapePage u True \<in> set evs"
    by (metis nth_mem)
  show "j = Suc i \<and> (evs @ [ScrapePage c False]) ! j = ExtractLinks u"
  proof (cases "j < length evs")
    case True
    with a have "event_url (evs ! j) = u" "i < j"
      by (auto simp: nth_append)
    from log_okD [OF ok this(2) True i(2) this(1)] True show ?thesis
      by (auto simp: nth_append)
  next
    case False
    with a have "j = length evs"
      by auto
    with a have "u = c"
      by (auto simp: nth_append)
    with mem new show ?thesis by simp
  qed
qed

lemma log_ok_success:
  assumes ok: "log_ok evs" and new: "ScrapePage c True \<notin> set evs"
  shows "log_ok (evs @ [ScrapePage c True, ExtractLinks c])"
  unfolding log_ok_def
proof (intro allI impI)
  fix i j u
  let ?evs = "evs @ [ScrapePage c True, ExtractLinks c]"
  assume a: "i < j \<and> j < length ?evs \<and> ?evs ! i = ScrapePage u True \<and> event_url (?evs ! j) = u"
  show "j = Suc i \<and> ?evs ! j = ExtractLinks u"
  proof (cases "j < length evs")
    case True
    with a have "event_url (evs ! j) = u" "i < j" "evs ! i = ScrapePage u True"
      by (auto simp: nth_append)
    from log_okD [OF ok this(2) True this(3) this(1)] True show ?thesis
      by (auto simp: nth_append)
  next
    case False
    then have j: "j = length evs \<or> j = Suc (length evs)"
      using a by auto
    then have uc: "u = c"
      using a by (auto simp: nth_append)
    show ?thesis
    proof (cases "i < length evs")
      case True
      with a have "evs ! i = ScrapePage u True"
        by (simp add: nth_append)
      with True have "ScrapePage u True \<in> set evs"
        by (metis nth_mem)
      with new uc show ?thesis by simp
    next
      case False
      with a j have "i = length evs" "j = Suc (length evs)"
        by auto
      then show ?thesis
        using uc by (simp add: nth_append)
    qed
  qed
qed

lemma crawl_inv_body:
  assumes "crawl_inv st"
  shows "crawl_inv (crawl_body env st)"
proof (cases "urlsToVisit st")
  case Nil
  then show ?thesis using assms by (simp add: crawl_body_def)
next
  case (Cons c rest)
  from assms have ok: "log_ok (fetch_log st)"
    and vis: "\<forall>u. ScrapePage u True \<in> set (fetch_log st) \<longrightarrow> u \<in> set (visitedUrls st)"
    by (simp_all add: crawl_inv_def)
  show ?thesis
  proof (cases "c \<in> set (visitedUrls st)")
    case True
    then show ?thesis
      using Cons assms by (simp add: crawl_body_def crawl_inv_def)
  next
    case False
    with vis have new: "ScrapePage c True \<notin> set (fetch_log st)"
      by blast
    show ?thesis
    proof (cases "scrapeSinglePage env (iteration st) c")
      case (Inl e)
      then show ?thesis
        using Cons False vis log_ok_fail [OF ok new]
        by (auto simp: crawl_body_def crawl_inv_def)
    next
      case (Inr pageContent)
      then show ?thesis
        using Cons False vis log_ok_success [OF ok new]
        by (auto simp: crawl_body_def crawl_inv_def Let_def set_add_def)
    qed
  qed
qed

lemma crawl_inv_loop: "crawl_inv st \<Longrightarrow> crawl_inv (crawl_loop env st)"
proof (induction env st rule: crawl_loop.induct)
  case (1 env st)
  show ?case
  proof (cases "crawl_cond st")
    case True
    with 1 crawl_inv_body show ?thesis
      by (subst crawl_loop.simps) simp
  next
    case False
    with 1 show ?thesis
      by (subst crawl_loop.simps) simp
  qed
qed

lemma log_ok_scrapeWebsite: "log_ok (snd (scrapeWebsite env baseUrl))"
proof -
  have "crawl_inv (crawl_init baseUrl)"
    by (simp add: crawl_inv_def crawl_init_def log_ok_Nil)
  then have "log_ok (fetch_log (crawl_loop env (crawl_init baseUrl)))"
    using crawl_inv_loop [of "crawl_init baseUrl" env] by (simp add: crawl_inv_def)
  then show ?thesis
    by (auto simp: scrapeWebsite_def Let_def log_ok_Nil split: sum.splits)
qed

text \<open>
  C9 (crawl visit uniqueness), as amended. In the requests of one call of \<open>scrapeWebsite\<close>,
  once the page of a URL has been scraped, the only later request for that URL is the
  request for its links, which follows at once: a page is scraped at most once, and its
  links are requested once. The loop that adds links to the queue only appends, and what
  it appends has no duplicates and is neither visited nor in the queue already. The queue
  never holds a URL twice, after any number of iterations.
\<close>

theorem crawl_visits_once:
  "(i < j \<and> j < length (snd (scrapeWebsite env baseUrl))
      \<and> snd (scrapeWebsite env baseUrl) ! i = ScrapePage u True
      \<and> event_url (snd (scrapeWebsite env baseUrl) ! j) = u
    \<longrightarrow> j = Suc i \<and> snd (scrapeWebsite env baseUrl) ! j = ExtractLinks u)
   \<and> (\<exists>new. enqueue_links visited queue links = queue @ new \<and> distinct new
         \<and> set new \<inter> (set visited \<union> set queue) = {} \<and> set new \<subseteq> set links)
   \<and> distinct (urlsToVisit ((crawl_body env ^^ n) (crawl_init baseUrl)))"
proof (intro conjI)
  show "i < j \<and> j < length (snd (scrapeWebsite env baseUrl))
      \<and> snd (scrapeWebsite env baseUrl) ! i = ScrapePage u True
      \<and> event_url (snd (scrapeWebsite env baseUrl) ! j) = u
    \<longrightarrow> j = Suc i \<and> snd (scrapeWebsite env baseUrl) ! j = ExtractLinks u"
    using log_ok_scrapeWebsite [of env baseUrl] unfolding log_ok_def by blast
  show "\<exists>new. enqueue_links visited queue links = queue @ new \<and> distinct new
         \<and> set new \<inter> (set visited \<union> set queue) = {} \<and> set new \<subseteq> set links"
    by (rule enqueue_links_new)
  show "distinct (urlsToVisit ((crawl_body env ^^ n) (crawl_init baseUrl)))"
    by (rule distinct_crawl_iter)
qed

text \<open>
  C9 as stated fails on the example site. Each page scraped is requested twice, once by
  \<open>scrapeSinglePage\<close> and once by \<open>extractLinks\<close>; and \<open>/d/a/b\<close>, whose request fails, is
  not recorded as visited, is put in the queue again from the page \<open>/d/a\<close>, and is
  requested a second time.
\<close>

theorem crawl_visits_once_counterexample:
  "snd (scrapeWebsite example_site (utf16 ''https://x.com/d''))
     = [ScrapePage (utf16 ''https://x.com/d'') True, ExtractLinks (utf16 ''https://x.com/d''),
        ScrapePage (utf16 ''https://x.com/d/a/b'') False,
        ScrapePage (utf16 ''https://x.com/d/a'') True, ExtractLinks (utf16 ''https://x.com/d/a''),
        ScrapePage (utf16 ''https://x.com/d/a/b'') False]
   \<and> \<not> distinct (map event_url (snd (scrapeWebsite example_site (utf16 ''https://x.com/d''))))"
  by code_simp

text \<open>
  The hypotheses of \<open>crawl_visits_once\<close> hold in the crawl of the example site at the first
  two requests; of four links, one visited, one in the queue and one twice on the page,
  one is added to the queue.
\<close>

theorem crawl_visits_once_witness:
  "(0 :: nat) < 1 \<and> 1 < length (snd (scrapeWebsite example_site (utf16 ''https://x.com/d'')))
   \<and> snd (scrapeWebsite example_site (utf16 ''https://x.com/d'')) ! 0
       = ScrapePage (utf16 ''https://x.com/d'') True
   \<and> event_url (snd (scrapeWebsite example_site (utf16 ''https://x.com/d'')) ! 1)
       = utf16 ''https://x.com/d''
   \<and> snd (scrapeWebsite example_site (utf16 ''https://x.com/d'')) ! 1
       = ExtractLinks (utf16 ''https://x.com/d'')
   \<and> (\<exists>new. enqueue_links [utf16 ''https://x.com/d''] [utf16 ''https://x.com/d/a'']
               [utf16 ''https://x.com/d'', utf16 ''https://x.com/d/a'', utf16 ''https://x.com/d/b'',
                utf16 ''https://x.com/d/b'']
             = [utf16 ''https://x.com/d/a''] @ new \<and> distinct new
         \<and> set new \<inter> (set [utf16 ''https://x.com/d''] \<union> set [utf16 ''https://x.com/d/a'']) = {}
         \<and> set new \<subseteq> set [utf16 ''https://x.com/d'', utf16 ''https://x.com/d/a'',
                            utf16 ''https://x.com/d/b'', utf16 ''https://x.com/d/b''])
   \<and> enqueue_links [utf16 ''https://x.com/d''] [utf16 ''https://x.com/d/a'']
         [utf16 ''https://x.com/d'', utf16 ''https://x.com/d/a'', utf16 ''https://x.com/d/b'',
          utf16 ''https://x.com/d/b'']
       = [utf16 ''https://x.com/d/a'', utf16 ''https://x.com/d/b'']
   \<and> distinct (urlsToVisit ((crawl_body example_site ^^ 1) (crawl_init (utf16 ''https://x.com/d''))))"
proof -
  have l: "snd (scrapeWebsite example_site (utf16 ''https://x.com/d''))
     = [ScrapePage (utf16 ''https://x.com/d'') True, ExtractLinks (utf16 ''https://x.com/d''),
        ScrapePage (utf16 ''https://x.com/d/a/b'') False,
        ScrapePage (utf16 ''https://x.com/d/a'') True, ExtractLinks (utf16 ''https://x.com/d/a''),
        ScrapePage (utf16 ''https://x.com/d/a/b'') False]"
    by code_simp
  have e: "enqueue_links [utf16 ''https://x.com/d''] [utf16 ''https://x.com/d/a'']
         [utf16 ''https://x.com/d'', utf16 ''https://x.com/d/a'', utf16 ''https://x.com/d/b'',
          utf16 ''https://x.com/d/b'']
       = [utf16 ''https://x.com/d/a'', utf16 ''https://x.com/d/b'']"
    by code_simp
  from crawl_visits_once [of 0 1 example_site "utf16 ''https://x.com/d''" "utf16 ''https://x.com/d''"
      "[utf16 ''https://x.com/d'']" "[utf16 ''https://x.com/d/a'']"
      "[utf16 ''https://x.com/d'', utf16 ''https://x.com/d/a'', utf16 ''https://x.com/d/b'',
        utf16 ''https://x.com/d/b'']" 1]
  show ?thesis
    unfolding l e by simp
qed

end
